theory Spec2Isabelle
  imports Main "HOL-Library.Word"
begin

section \<open>Basic types of the proxy\<close>

text \<open>
  Go strings and byte slices are byte sequences: both are \<open>char list\<close> here (a HOL
  \<open>char\<close> is one byte). An \<open>int64\<close> and a \<open>time.Duration\<close> (nanoseconds in an
  \<open>int64\<close>) are 64-bit words read through \<open>sint\<close>, so \<open>+\<close> and \<open>*\<close> wrap as in Go.
  A \<open>time.Time\<close> is an instant on an unbounded timeline, counted in nanoseconds from
  Go's zero time (so \<open>IsZero t\<close> is \<open>t = 0\<close>); \<open>t.Add d\<close> moves it by the signed value
  of \<open>d\<close> and \<open>Before\<close> is \<open><\<close>. Go's \<open>int\<close> (status codes) is \<open>int\<close>.
\<close>

type_synonym bytes = string
type_synonym int64 = "64 word"
type_synonym Duration = "64 word"
type_synonym Time = int

definition Add :: "Time \<Rightarrow> Duration \<Rightarrow> Time" where
  "Add t d = t + sint d"

definition Before :: "Time \<Rightarrow> Time \<Rightarrow> bool" where
  "Before t u = (t < u)"

definition IsZero :: "Time \<Rightarrow> bool" where
  "IsZero t = (t = 0)"

text \<open>\<open>http.Header\<close>: a map from canonical header names to their values.\<close>

type_synonym Header = "string \<rightharpoonup> string list"

section \<open>internal/cache: entries\<close>

record Entry =
  Body :: bytes
  Header :: Header
  Status :: int
  StoredAt :: Time
  TTL :: Duration
  StaleTTL :: Duration
  Size :: int64
  ETag :: string
  LastModified :: Time

definition Fresh :: "Entry \<Rightarrow> Time \<Rightarrow> bool" where
  "Fresh e now = Before now (Add (StoredAt e) (TTL e))"

definition StaleButValid :: "Entry \<Rightarrow> Time \<Rightarrow> bool" where
  "StaleButValid e now = Before now (Add (StoredAt e) (TTL e + StaleTTL e))"

text \<open>
  The stale window as the specification words it:
  \<open>storedAt + ttl \<le> now < storedAt + ttl + staleTtl\<close>, over the signed values.
\<close>

definition spec_staleButValid :: "Entry \<Rightarrow> Time \<Rightarrow> bool" where
  "spec_staleButValid e now =
     (StoredAt e + sint (TTL e) \<le> now \<and>
      now < StoredAt e + sint (TTL e) + sint (StaleTTL e))"

definition entry_c2 :: Entry where
  "entry_c2 = \<lparr> Body = ''hello'', Header = Map.empty, Status = 200, StoredAt = 0,
       TTL = 10, StaleTTL = 5, Size = 5, ETag = [], LastModified = 0 \<rparr>"

section \<open>internal/cache: the bounded LRU and the cache\<close>

text \<open>
  Modelled from the spec: the LRU container \<open>lru.Cache\<close> of the library
  \<open>hashicorp/golang-lru/v2\<close>, whose code is not among the sources. It is the
  strict LRU of the specification, bounded by a number of entries: the items are listed
  from the most to the least recently used; \<open>Add\<close> of a present key replaces its value
  and promotes it, \<open>Add\<close> of a new key puts it in front and, when the bound is
  exceeded, drops the oldest item; \<open>Get\<close> promotes the key it finds; construction
  fails for a bound that is not positive.
\<close>

record 'v LRU =
  size :: int
  items :: "(string \<times> 'v) list"

definition lru_New :: "int \<Rightarrow> 'v LRU option" where
  "lru_New n = (if n \<le> 0 then None else Some \<lparr> size = n, items = [] \<rparr>)"

definition lru_Add :: "'v LRU \<Rightarrow> string \<Rightarrow> 'v \<Rightarrow> 'v LRU" where
  "lru_Add l k v =
     (case map_of (items l) k of
        Some old \<Rightarrow> l\<lparr> items := (k, v) # filter (\<lambda>p. fst p \<noteq> k) (items l) \<rparr>
      | None \<Rightarrow>
          (let xs = (k, v) # items l
           in if size l < int (length xs) then l\<lparr> items := butlast xs \<rparr>
              else l\<lparr> items := xs \<rparr>))"

definition lru_Get :: "'v LRU \<Rightarrow> string \<Rightarrow> 'v option \<times> 'v LRU" where
  "lru_Get l k =
     (case map_of (items l) k of
        None \<Rightarrow> (None, l)
      | Some v \<Rightarrow> (Some v, l\<lparr> items := (k, v) # filter (\<lambda>p. fst p \<noteq> k) (items l) \<rparr>))"

definition lru_Remove :: "'v LRU \<Rightarrow> string \<Rightarrow> 'v LRU" where
  "lru_Remove l k = l\<lparr> items := filter (\<lambda>p. fst p \<noteq> k) (items l) \<rparr>"

definition lru_Len :: "'v LRU \<Rightarrow> int" where
  "lru_Len l = int (length (items l))"

text \<open>
  The cache holds pointers \<open>*Entry\<close>. A pointer is a reference into an explicit heap of
  entries, so that a write through one reference is seen through every other one.
  \<open>nxt\<close> is the next unused reference; \<open>&Entry{...}\<close> allocates it. The type of
  references has no nil: where the source allows nil, the model uses an option.
\<close>

type_synonym ref = nat

record Cache =
  lru :: "ref LRU"
  ttl :: Duration
  stale :: Duration
  cap :: int

record State =
  heap :: "ref \<Rightarrow> Entry"
  nxt :: ref
  cache :: Cache

definition alloc :: "State \<Rightarrow> Entry \<Rightarrow> ref \<times> State" where
  "alloc s e = (nxt s, s\<lparr> heap := (heap s)(nxt s := e), nxt := Suc (nxt s) \<rparr>)"

definition Cache_New :: "int \<Rightarrow> Duration \<Rightarrow> Duration \<Rightarrow> Cache option" where
  "Cache_New capacity t st =
     (case lru_New capacity of
        None \<Rightarrow> None
      | Some l \<Rightarrow> Some \<lparr> lru = l, ttl = t, stale = st, cap = capacity \<rparr>)"

definition Cache_Get :: "State \<Rightarrow> string \<Rightarrow> ref option \<times> State" where
  "Cache_Get s key =
     (case lru_Get (lru (cache s)) key of
        (None, l) \<Rightarrow> (None, s)
      | (Some r, l) \<Rightarrow> (Some r, s\<lparr> cache := (cache s)\<lparr> lru := l \<rparr> \<rparr>))"

definition Cache_Set :: "State \<Rightarrow> string \<Rightarrow> ref \<Rightarrow> State" where
  "Cache_Set s key r =
     (let e0 = heap s r;
          e1 = (if TTL e0 = 0 then e0\<lparr> TTL := ttl (cache s) \<rparr> else e0);
          e2 = (if StaleTTL e1 = 0 then e1\<lparr> StaleTTL := stale (cache s) \<rparr> else e1)
      in s\<lparr> heap := (heap s)(r := e2),
            cache := (cache s)\<lparr> lru := lru_Add (lru (cache s)) key r \<rparr> \<rparr>)"

definition Cache_Delete :: "State \<Rightarrow> string \<Rightarrow> State" where
  "Cache_Delete s key = s\<lparr> cache := (cache s)\<lparr> lru := lru_Remove (lru (cache s)) key \<rparr> \<rparr>"

definition Cache_Stats :: "State \<Rightarrow> int \<times> int" where
  "Cache_Stats s = (lru_Len (lru (cache s)), cap (cache s))"

text \<open>A run of \<open>Set\<close> calls, one per pair of a key and an entry reference, in order.\<close>

fun Set_all :: "State \<Rightarrow> (string \<times> ref) list \<Rightarrow> State" where
  "Set_all s [] = s"
| "Set_all s ((k, r) # kvs) = Set_all (Cache_Set s k r) kvs"

definition cached_keys :: "State \<Rightarrow> string list" where
  "cached_keys s = map fst (items (lru (cache s)))"

definition zeroEntry :: Entry where
  "zeroEntry = \<lparr> Body = [], Header = Map.empty, Status = 0, StoredAt = 0,
       TTL = 0, StaleTTL = 0, Size = 0, ETag = [], LastModified = 0 \<rparr>"

text \<open>The state after \<open>cache.New capacity t st\<close>, on a heap with nothing allocated.\<close>

definition newState :: "int \<Rightarrow> Duration \<Rightarrow> Duration \<Rightarrow> State option" where
  "newState capacity t st =
     (case Cache_New capacity t st of
        None \<Rightarrow> None
      | Some c \<Rightarrow> Some \<lparr> heap = (\<lambda>r. zeroEntry), nxt = 0, cache = c \<rparr>)"

section \<open>String helpers of the Go standard library\<close>

text \<open>
  The helpers of package \<open>strings\<close> and \<open>strconv\<close> that the proxy calls, on bytes.
  \<open>ToLower\<close> and \<open>TrimSpace\<close> are modelled on ASCII (bytes from \<open>0x80\<close> on are left
  alone), which is exact for ASCII inputs.
\<close>

definition upperAZ :: string where
  "upperAZ = ''ABCDEFGHIJKLMNOPQRSTUVWXYZ''"

definition lowerAZ :: string where
  "lowerAZ = ''abcdefghijklmnopqrstuvwxyz''"

definition lowerByte :: "char \<Rightarrow> char" where
  "lowerByte c = (case map_of (zip upperAZ lowerAZ) c of Some d \<Rightarrow> d | None \<Rightarrow> c)"

definition upperByte :: "char \<Rightarrow> char" where
  "upperByte c = (case map_of (zip lowerAZ upperAZ) c of Some d \<Rightarrow> d | None \<Rightarrow> c)"

definition ToLower :: "string \<Rightarrow> string" where
  "ToLower s = map lowerByte s"

definition isSpace :: "char \<Rightarrow> bool" where
  "isSpace c = (c \<in> set [CHR 0x09, CHR 0x0A, CHR 0x0B, CHR 0x0C, CHR 0x0D, CHR 0x20])"

definition TrimSpace :: "string \<Rightarrow> string" where
  "TrimSpace s = rev (dropWhile isSpace (rev (dropWhile isSpace s)))"

definition HasPrefix :: "string \<Rightarrow> string \<Rightarrow> bool" where
  "HasPrefix s p = (take (length p) s = p)"

text \<open>\<open>strings.CutPrefix\<close>: \<open>None\<close> is the result \<open>found = false\<close>.\<close>

definition CutPrefix :: "string \<Rightarrow> string \<Rightarrow> string option" where
  "CutPrefix s p = (if HasPrefix s p then Some (drop (length p) s) else None)"

definition TrimPrefix :: "string \<Rightarrow> string \<Rightarrow> string" where
  "TrimPrefix s p = (if HasPrefix s p then drop (length p) s else s)"

fun Contains :: "string \<Rightarrow> string \<Rightarrow> bool" where
  "Contains [] sub = (sub = [])"
| "Contains (c # cs) sub = (HasPrefix (c # cs) sub \<or> Contains cs sub)"

text \<open>\<open>strings.SplitSeq s ","\<close>: the pieces between the separators, in order.\<close>

fun Split :: "string \<Rightarrow> char \<Rightarrow> string list" where
  "Split [] sep = [[]]"
| "Split (c # cs) sep =
     (if c = sep then [] # Split cs sep
      else (case Split cs sep of [] \<Rightarrow> [[c]] | p # ps \<Rightarrow> (c # p) # ps))"

definition digitVal :: "char \<Rightarrow> int option" where
  "digitVal c = map_of (zip ''0123456789'' [0, 1, 2, 3, 4, 5, 6, 7, 8, 9]) c"

fun digitsVal :: "string \<Rightarrow> int \<Rightarrow> int option" where
  "digitsVal [] acc = Some acc"
| "digitsVal (c # cs) acc =
     (case digitVal c of None \<Rightarrow> None | Some d \<Rightarrow> digitsVal cs (acc * 10 + d))"

text \<open>
  \<open>strconv.Atoi\<close>: an optional sign, then one or more decimal digits; \<open>None\<close> is the
  error result (syntax, or a value outside the \<open>int64\<close> range).
\<close>

definition Atoi :: "string \<Rightarrow> int option" where
  "Atoi s =
     (let neg = HasPrefix s ''-'' \<and> s \<noteq> [];
          ds = (if s \<noteq> [] \<and> (hd s = CHR ''-'' \<or> hd s = CHR ''+'') then tl s else s)
      in if ds = [] then None
         else (case digitsVal ds 0 of
                 None \<Rightarrow> None
               | Some n \<Rightarrow>
                   (let v = (if neg then - n else n)
                    in if - (2 ^ 63) \<le> v \<and> v < 2 ^ 63 then Some v else None)))"

fun digitsOf :: "nat \<Rightarrow> string" where
  "digitsOf n =
     (if n < 10 then [''0123456789'' ! n]
      else digitsOf (n div 10) @ [''0123456789'' ! (n mod 10)])"

declare digitsOf.simps [simp del]

text \<open>\<open>strconv.Itoa\<close> and \<open>strconv.FormatInt _ 10\<close>.\<close>

definition Itoa :: "int \<Rightarrow> string" where
  "Itoa i = (if i < 0 then CHR ''-'' # digitsOf (nat (- i)) else digitsOf (nat i))"

section \<open>net/http: headers and requests\<close>

definition validHeaderFieldByte :: "char \<Rightarrow> bool" where
  "validHeaderFieldByte c =
     (c \<in> set (upperAZ @ lowerAZ @ ''0123456789'' @ ''!#$%&*+-.^_`|~'' @ [CHR 0x27]))"

fun canon :: "bool \<Rightarrow> string \<Rightarrow> string" where
  "canon up [] = []"
| "canon up (c # cs) = (if up then upperByte c else lowerByte c) # canon (c = CHR ''-'') cs"

text \<open>
  \<open>textproto.CanonicalMIMEHeaderKey\<close>: a name made of token bytes gets an upper-case
  letter first and after each hyphen and lower-case letters elsewhere; any other name
  is returned as it is.
\<close>

definition CanonicalMIMEHeaderKey :: "string \<Rightarrow> string" where
  "CanonicalMIMEHeaderKey s = (if list_all validHeaderFieldByte s then canon True s else s)"

definition Header_Get :: "Header \<Rightarrow> string \<Rightarrow> string" where
  "Header_Get h key =
     (case h (CanonicalMIMEHeaderKey key) of
        None \<Rightarrow> [] | Some [] \<Rightarrow> [] | Some (v # vs) \<Rightarrow> v)"

definition Header_Set :: "Header \<Rightarrow> string \<Rightarrow> string \<Rightarrow> Header" where
  "Header_Set h key v = h(CanonicalMIMEHeaderKey key \<mapsto> [v])"

text \<open>
  The part of \<open>*http.Request\<close> the proxy reads: the method, \<open>URL.Path\<close>, the header and
  the parsed query (\<open>URL.Query()\<close>).
\<close>

record Request =
  Method :: string
  Path :: string
  ReqHeader :: Header
  Query :: "string \<rightharpoonup> string list"

definition Query_Get :: "(string \<rightharpoonup> string list) \<Rightarrow> string \<Rightarrow> string" where
  "Query_Get q key = (case q key of None \<Rightarrow> [] | Some [] \<Rightarrow> [] | Some (v # vs) \<Rightarrow> v)"

section \<open>internal/server: admin authentication\<close>

text \<open>\<open>subtle.ConstantTimeCompare\<close> of the standard library: 1 for equal slices, else 0.\<close>

definition ConstantTimeCompare :: "bytes \<Rightarrow> bytes \<Rightarrow> int" where
  "ConstantTimeCompare a b = (if a = b then 1 else 0)"

definition subtleConstantTimeEquals :: "string \<Rightarrow> string \<Rightarrow> bool" where
  "subtleConstantTimeEquals a b =
     (if length a = 0 \<or> length b = 0 then False
      else if length a \<noteq> length b then False
      else ConstantTimeCompare a b = 1)"

definition checkToken :: "Request \<Rightarrow> string \<Rightarrow> bool" where
  "checkToken r expected =
     (if expected = [] then True
      else
        (let token0 = Header_Get (ReqHeader r) ''X-Auth-Token'';
             token1 =
               (if token0 = [] then
                  (case CutPrefix (ToLower (Header_Get (ReqHeader r) ''Authorization''))
                          ''bearer '' of
                     Some v \<Rightarrow> TrimSpace v
                   | None \<Rightarrow> token0)
                else token0);
             token2 = (if token1 = [] then Query_Get (Query r) ''token'' else token1)
         in subtleConstantTimeEquals token2 expected))"

definition req_bearer :: "string \<Rightarrow> Request" where
  "req_bearer auth =
     \<lparr> Method = ''GET'', Path = ''/metrics'',
       ReqHeader = Header_Set Map.empty ''Authorization'' auth, Query = Map.empty \<rparr>"

section \<open>internal/server: policy helpers\<close>

definition shouldUseCache :: "Request \<Rightarrow> bool" where
  "shouldUseCache r =
     (if Method r \<noteq> ''GET'' then False
      else if Header_Get (ReqHeader r) ''Range'' \<noteq> [] then False
      else
        (let cc = ToLower (Header_Get (ReqHeader r) ''Cache-Control'')
         in if Contains cc ''no-cache'' \<or> Contains cc ''max-age=0'' then False
            else
              (let pragma = ToLower (Header_Get (ReqHeader r) ''Pragma'')
               in if Contains pragma ''no-cache'' then False else True)))"

definition hasNoStore :: "Header \<Rightarrow> bool" where
  "hasNoStore h = Contains (ToLower (Header_Get h ''Cache-Control'')) ''no-store''"

text \<open>
  The loop of \<open>ttlFromHeaders\<close> over the comma-separated parts: the first part that is
  \<open>max-age=\<close> followed by an integer decides; a part whose value does not parse is
  skipped. The product \<open>Duration(secs) * time.Second\<close> wraps in 64 bits.
\<close>

fun ttlFromParts :: "string list \<Rightarrow> Duration \<Rightarrow> Duration" where
  "ttlFromParts [] fallback = fallback"
| "ttlFromParts (part # parts) fallback =
     (case CutPrefix (TrimSpace (ToLower part)) ''max-age='' of
        Some v \<Rightarrow>
          (case Atoi v of
             Some secs \<Rightarrow> (if secs \<le> 0 then 0 else of_int secs * 1000000000)
           | None \<Rightarrow> ttlFromParts parts fallback)
      | None \<Rightarrow> ttlFromParts parts fallback)"

definition ttlFromHeaders :: "Header \<Rightarrow> Duration \<Rightarrow> Duration" where
  "ttlFromHeaders h fallback =
     (let cc = Header_Get h ''Cache-Control''
      in if cc \<noteq> [] then ttlFromParts (Split cc CHR '','') fallback else fallback)"

text \<open>
  The rule of the specification for the request directives, in its words: a directive
  counts when it is one of the comma-separated tokens of the header value, compared
  without regard to letter case and surrounding white space.
\<close>

definition spec_hasToken :: "string \<Rightarrow> string \<Rightarrow> bool" where
  "spec_hasToken v t = (t \<in> set (map (\<lambda>p. TrimSpace (ToLower p)) (Split v CHR '','')))"

definition spec_shouldUseCache :: "Request \<Rightarrow> bool" where
  "spec_shouldUseCache r =
     (Method r = ''GET'' \<and> Header_Get (ReqHeader r) ''Range'' = [] \<and>
      \<not> spec_hasToken (Header_Get (ReqHeader r) ''Cache-Control'') ''no-cache'' \<and>
      \<not> spec_hasToken (Header_Get (ReqHeader r) ''Cache-Control'') ''max-age=0'' \<and>
      \<not> spec_hasToken (Header_Get (ReqHeader r) ''Pragma'') ''no-cache'')"

definition req_cc :: "string \<Rightarrow> Request" where
  "req_cc v =
     \<lparr> Method = ''GET'', Path = ''/a.txt'',
       ReqHeader = Header_Set Map.empty ''Cache-Control'' v, Query = Map.empty \<rparr>"

text \<open>
  The shape every reachable cache has: a positive bound, \<open>cap\<close> equal to the bound of
  the LRU, no key listed twice, and not more items than the bound.
\<close>

definition cache_inv :: "State \<Rightarrow> bool" where
  "cache_inv s = (0 < size (lru (cache s)) \<and> cap (cache s) = size (lru (cache s)) \<and>
      distinct (cached_keys s) \<and> int (length (cached_keys s)) \<le> size (lru (cache s)))"

text \<open>What \<open>lru_Add\<close> does to the list of keys, most recently used first.\<close>

definition keys_add :: "int \<Rightarrow> string \<Rightarrow> string list \<Rightarrow> string list" where
  "keys_add n k ks =
     (if k \<in> set ks then k # removeAll k ks
      else if n < int (length ks) + 1 then butlast (k # ks) else k # ks)"

definition state_c9 :: State where
  "state_c9 = \<lparr> heap = (\<lambda>r. zeroEntry), nxt = 3,
       cache = \<lparr> lru = \<lparr> size = 2, items = [] \<rparr>, ttl = 5, stale = 5, cap = 2 \<rparr> \<rparr>"

definition state_c10 :: State where
  "state_c10 = \<lparr> heap = (\<lambda>r. zeroEntry)(0 := zeroEntry\<lparr> TTL := - 1 \<rparr>), nxt = 2,
       cache = \<lparr> lru = \<lparr> size = 2, items = [] \<rparr>, ttl = 7, stale = 9, cap = 2 \<rparr> \<rparr>"

section \<open>internal/origin: the object store adapter\<close>

record Conditional =
  IfNoneMatch :: string
  IfModifiedSince :: "Time option"
  Range :: string

text \<open>
  A response body (\<open>io.ReadCloser\<close>) is the bytes the stream still yields and whether
  it ends with a read error instead of end-of-file once they are consumed. Closing
  and the cancellation of the request context are not modelled.
\<close>

record ReadCloser =
  content :: bytes
  broken :: bool

record Object =
  oBody :: "ReadCloser option"
  Headers :: Header
  StatusCode :: int
  ContentLength :: int64
  oETag :: string
  oLastModified :: "Time option"
  CacheControl :: string
  AcceptRanges :: string
  ContentType :: string
  ContentRange :: string

text \<open>
  The outputs of the S3 client (an external library), with the fields the adapter
  reads. A \<open>*string\<close> is read through \<open>aws.ToString\<close> only, so it is a string with
  \<open>nil\<close> as the empty string. \<open>gMetadata\<close> lists the user metadata in the order the
  map is iterated.
\<close>

record GetObjectOutput =
  gBody :: ReadCloser
  gContentType :: string
  gCacheControl :: string
  gLastModified :: "Time option"
  gETag :: string
  gContentEncoding :: string
  gAcceptRanges :: string
  gContentRange :: string
  gContentDisposition :: string
  gContentLanguage :: string
  gExpiresString :: string
  gMetadata :: "(string \<times> string) list"
  gContentLength :: "int64 option"

record HeadObjectOutput =
  hContentType :: string
  hCacheControl :: string
  hLastModified :: "Time option"
  hETag :: string
  hContentEncoding :: string
  hAcceptRanges :: string
  hContentDisposition :: string
  hContentLanguage :: string
  hExpiresString :: string
  hContentLength :: "int64 option"

text \<open>
  An error of the S3 client: an endpoint resolution error, an API error with its error
  code, or anything else (transport failure, timeout, cancellation).
\<close>

datatype s3err = EndpointNotFoundError | APIError string | OtherError

text \<open>
  The adapter's errors: its three sentinels, or the client's error wrapped with a
  message, which is none of the sentinels under \<open>errors.Is\<close>.
\<close>

datatype OriginError = ErrNotFound | ErrNotModified | ErrPrecondition | ErrWrapped s3err

definition translateError :: "s3err \<Rightarrow> OriginError" where
  "translateError err =
     (case err of
        EndpointNotFoundError \<Rightarrow> ErrWrapped err
      | APIError code \<Rightarrow>
          (if code \<in> set [''NotFound'', ''NoSuchKey'', ''NoSuchBucket'', ''404'']
           then ErrNotFound
           else if code = ''NotModified'' then ErrNotModified
           else if code = ''PreconditionFailed'' then ErrPrecondition
           else ErrWrapped err)
      | OtherError \<Rightarrow> ErrWrapped err)"

definition setHeader :: "Header \<Rightarrow> string \<Rightarrow> string \<Rightarrow> Header" where
  "setHeader h key v = (if v = [] then h else Header_Set h key v)"

text \<open>
  \<open>formatTime\<close>; the layout \<open>t.UTC().Format(http.TimeFormat)\<close> of the standard library
  is the parameter \<open>fmt\<close>.
\<close>

definition formatTime :: "(Time \<Rightarrow> string) \<Rightarrow> Time option \<Rightarrow> string" where
  "formatTime fmt t = (case t of None \<Rightarrow> [] | Some u \<Rightarrow> fmt u)"

definition toObject :: "(Time \<Rightarrow> string) \<Rightarrow> GetObjectOutput \<Rightarrow> int \<Rightarrow> Object" where
  "toObject fmt resp status =
     (let h1 = fold (\<lambda>(k, v) h. setHeader h k v)
                 [(''Content-Type'', gContentType resp),
                  (''Cache-Control'', gCacheControl resp),
                  (''Last-Modified'', formatTime fmt (gLastModified resp)),
                  (''ETag'', gETag resp),
                  (''Content-Encoding'', gContentEncoding resp),
                  (''Accept-Ranges'', gAcceptRanges resp),
                  (''Content-Range'', gContentRange resp),
                  (''Content-Disposition'', gContentDisposition resp),
                  (''Content-Language'', gContentLanguage resp)] Map.empty;
          h2 = (if gExpiresString resp \<noteq> [] then setHeader h1 ''Expires'' (gExpiresString resp)
                else h1);
          h3 = fold (\<lambda>(k, v) h. Header_Set h (''x-amz-meta-'' @ k) v) (gMetadata resp) h2;
          contentLength = (case gContentLength resp of None \<Rightarrow> 0 | Some n \<Rightarrow> n);
          h4 = (case gContentLength resp of
                  None \<Rightarrow> h3
                | Some n \<Rightarrow> Header_Set h3 ''Content-Length'' (Itoa (sint n)));
          status1 = (if gContentRange resp \<noteq> [] then 206 else status)
      in \<lparr> oBody = Some (gBody resp), Headers = h4, StatusCode = status1,
           ContentLength = contentLength, oETag = gETag resp,
           oLastModified = gLastModified resp, CacheControl = gCacheControl resp,
           AcceptRanges = gAcceptRanges resp, ContentType = gContentType resp,
           ContentRange = gContentRange resp \<rparr>)"

definition toHeadObject :: "(Time \<Rightarrow> string) \<Rightarrow> HeadObjectOutput \<Rightarrow> Object" where
  "toHeadObject fmt resp =
     (let h1 = fold (\<lambda>(k, v) h. setHeader h k v)
                 [(''Content-Type'', hContentType resp),
                  (''Cache-Control'', hCacheControl resp),
                  (''Last-Modified'', formatTime fmt (hLastModified resp)),
                  (''ETag'', hETag resp),
                  (''Content-Encoding'', hContentEncoding resp),
                  (''Accept-Ranges'', hAcceptRanges resp),
                  (''Content-Disposition'', hContentDisposition resp),
                  (''Content-Language'', hContentLanguage resp)] Map.empty;
          h2 = (if hExpiresString resp \<noteq> [] then setHeader h1 ''Expires'' (hExpiresString resp)
                else h1)
      in \<lparr> oBody = None, Headers = h2, StatusCode = 200,
           ContentLength = (case hContentLength resp of None \<Rightarrow> 0 | Some n \<Rightarrow> n),
           oETag = hETag resp, oLastModified = hLastModified resp,
           CacheControl = hCacheControl resp, AcceptRanges = hAcceptRanges resp,
           ContentType = hContentType resp, ContentRange = [] \<rparr>)"

text \<open>
  What surrounds the proxy in one call: the S3 client's two operations, as functions
  of the key and of the conditional they are sent, and the two time conversions of
  the standard library (\<open>Format\<close> and \<open>time.Parse\<close> with \<open>http.TimeFormat\<close>).
\<close>

record Env =
  s3_GetObject :: "string \<Rightarrow> Conditional \<Rightarrow> s3err + GetObjectOutput"
  s3_HeadObject :: "string \<Rightarrow> Conditional \<Rightarrow> s3err + HeadObjectOutput"
  time_Format :: "Time \<Rightarrow> string"
  time_Parse :: "string \<Rightarrow> Time option"

definition GetObject :: "Env \<Rightarrow> string \<Rightarrow> Conditional \<Rightarrow> OriginError + Object" where
  "GetObject env key cond =
     (case s3_GetObject env key cond of
        Inl err \<Rightarrow> Inl (translateError err)
      | Inr resp \<Rightarrow> Inr (toObject (time_Format env) resp 200))"

text \<open>\<open>HeadObject\<close> sends the two validators only; the range is not part of its input.\<close>

definition HeadObject :: "Env \<Rightarrow> string \<Rightarrow> Conditional \<Rightarrow> OriginError + Object" where
  "HeadObject env key cond =
     (case s3_HeadObject env key (cond\<lparr> Range := [] \<rparr>) of
        Inl err \<Rightarrow> Inl (translateError err)
      | Inr resp \<Rightarrow> Inr (toHeadObject (time_Format env) resp))"

text \<open>
  \<open>io.ReadAll (io.LimitReader body n)\<close>: the bytes read, whether the read failed, and
  the stream that is left. A limit that is not positive reads nothing; a stream with at
  least \<open>n\<close> bytes gives its first \<open>n\<close> bytes and is not read further; a shorter stream
  is read to its end, where it reports its error if it is broken.
\<close>

definition ReadAllLimit :: "ReadCloser \<Rightarrow> int64 \<Rightarrow> bytes \<times> bool \<times> ReadCloser" where
  "ReadAllLimit b n =
     (if sint n \<le> 0 then ([], False, b)
      else if nat (sint n) \<le> length (content b)
      then (take (nat (sint n)) (content b), False,
            b\<lparr> content := drop (nat (sint n)) (content b) \<rparr>)
      else (content b, broken b, b\<lparr> content := [] \<rparr>))"

section \<open>internal/server: the object handler\<close>

text \<open>The fields of \<open>config.Config\<close> that the handlers read.\<close>

record Config =
  MaxObjectSize :: int64
  CacheTTL :: Duration
  CacheStaleTTL :: Duration

text \<open>
  What a handler writes to its \<open>http.ResponseWriter\<close>: the status, the header and the
  body bytes. A handler's result is that response, the state it leaves, and the
  revalidation task it has started, if any (the key and the entry reference passed to
  \<open>go s.revalidate\<close>). Metrics and logging are not modelled; writes to the client do
  not fail.
\<close>

record Response =
  rStatus :: int
  rHeader :: Header
  rBody :: bytes

record Result =
  resp :: Response
  post :: State
  spawned :: "(string \<times> ref) option"

definition StatusText :: "int \<Rightarrow> string" where
  "StatusText code =
     (case map_of [(400, ''Bad Request''), (401, ''Unauthorized''),
                   (405, ''Method Not Allowed''), (412, ''Precondition Failed''),
                   (429, ''Too Many Requests''), (502, ''Bad Gateway'')] code of
        Some t \<Rightarrow> t | None \<Rightarrow> [])"

text \<open>\<open>http.Error\<close> on a writer with nothing written: a plain-text body ending in a newline.\<close>

definition http_Error :: "string \<Rightarrow> int \<Rightarrow> Response" where
  "http_Error msg code =
     \<lparr> rStatus = code,
       rHeader = Header_Set (Header_Set Map.empty ''Content-Type'' ''text/plain; charset=utf-8'')
                   ''X-Content-Type-Options'' ''nosniff'',
       rBody = msg @ [CHR 0x0A] \<rparr>"

definition http_NotFound :: Response where
  "http_NotFound = http_Error ''404 page not found'' 404"

definition reply :: "State \<Rightarrow> Response \<Rightarrow> Result" where
  "reply s w = \<lparr> resp = w, post = s, spawned = None \<rparr>"

definition cacheKey :: "string \<Rightarrow> string" where
  "cacheKey key = key"

text \<open>Headers are values here, so the deep copy of \<open>cloneHeader\<close> is the header itself.\<close>

definition cloneHeader :: "Header \<Rightarrow> Header" where
  "cloneHeader h = h"

definition copyHeaders :: "Header \<Rightarrow> Header \<Rightarrow> Header" where
  "copyHeaders dst src = dst ++ src"

definition valueOrZero :: "Time option \<Rightarrow> Time" where
  "valueOrZero t = (case t of None \<Rightarrow> 0 | Some u \<Rightarrow> u)"

text \<open>
  \<open>Entry.Age\<close>: whole seconds since \<open>StoredAt\<close>. \<open>Sub\<close> saturates at the largest
  \<open>Duration\<close>; the conversion through \<open>float64\<close> seconds is taken as exact.
\<close>

definition Age :: "Entry \<Rightarrow> Time \<Rightarrow> int" where
  "Age e now =
     (if Before now (StoredAt e) then 0
      else min (now - StoredAt e) (2 ^ 63 - 1) div 1000000000)"

definition buildConditional :: "(string \<Rightarrow> Time option) \<Rightarrow> Request \<Rightarrow> Conditional" where
  "buildConditional parse r =
     \<lparr> IfNoneMatch = Header_Get (ReqHeader r) ''If-None-Match'',
       IfModifiedSince =
         (let ims = Header_Get (ReqHeader r) ''If-Modified-Since''
          in if ims \<noteq> [] then parse ims else None),
       Range = [] \<rparr>"

definition writeCacheEntry :: "State \<Rightarrow> Request \<Rightarrow> ref \<Rightarrow> Time \<Rightarrow> string \<Rightarrow> Response" where
  "writeCacheEntry s r entry now state =
     (let e = heap s entry;
          h0 = copyHeaders Map.empty (Header e);
          h1 = Header_Set h0 ''Age'' (Itoa (Age e now));
          h2 = Header_Set h1 ''X-Cache'' state
      in \<lparr> rStatus = Status e, rHeader = h2,
           rBody = (if Method r = ''HEAD'' then [] else Body e) \<rparr>)"

definition fetchFromOrigin ::
    "Env \<Rightarrow> string \<Rightarrow> Conditional \<Rightarrow> string \<Rightarrow> OriginError + Object" where
  "fetchFromOrigin env key cond method =
     (if method = ''HEAD'' then HeadObject env key cond else GetObject env key cond)"

definition handleOriginError ::
    "State \<Rightarrow> Request \<Rightarrow> OriginError \<Rightarrow> ref option \<Rightarrow> Time \<Rightarrow> string \<Rightarrow> Result" where
  "handleOriginError s r err entry now cKey =
     (if err = ErrNotModified then
        (case entry of
           Some e \<Rightarrow>
             (let s1 = s\<lparr> heap := (heap s)(e := (heap s e)\<lparr> StoredAt := now \<rparr>) \<rparr>;
                  s2 = Cache_Set s1 cKey e
              in \<lparr> resp = writeCacheEntry s2 r e now ''REVALIDATED'', post = s2,
                   spawned = None \<rparr>)
         | None \<Rightarrow> reply s \<lparr> rStatus = 304, rHeader = Map.empty, rBody = [] \<rparr>)
      else if err = ErrNotFound then reply s http_NotFound
      else if err = ErrPrecondition then reply s (http_Error (StatusText 412) 412)
      else reply s (http_Error (StatusText 502) 502))"

text \<open>
  The handler up to the origin call (lines 151 to 205): either it has answered, or it
  has called the origin. \<open>Fetched\<close> keeps the state after the cache probe, the key,
  \<open>useCache\<close>, the entry kept as a hint, the conditional that was sent and the origin's
  answer.
\<close>

datatype Stage =
  Early Result
| Fetched State string bool "ref option" Conditional "OriginError + Object"

definition composeConditional ::
    "(string \<Rightarrow> Time option) \<Rightarrow> State \<Rightarrow> Request \<Rightarrow> ref option \<Rightarrow> Conditional" where
  "composeConditional parse s r entry =
     (let cond0 = buildConditional parse r;
          cond1 =
            (case entry of
               None \<Rightarrow> cond0
             | Some e \<Rightarrow>
                 (let c1 = (if ETag (heap s e) \<noteq> [] \<and> IfNoneMatch cond0 = []
                            then cond0\<lparr> IfNoneMatch := ETag (heap s e) \<rparr> else cond0)
                  in if \<not> IsZero (LastModified (heap s e)) \<and> IfModifiedSince c1 = None
                     then c1\<lparr> IfModifiedSince := Some (LastModified (heap s e)) \<rparr> else c1))
      in if Method r = ''GET'' then cond1\<lparr> Range := Header_Get (ReqHeader r) ''Range'' \<rparr>
         else cond1)"

definition callOrigin :: "Env \<Rightarrow> State \<Rightarrow> Request \<Rightarrow> string \<Rightarrow> bool \<Rightarrow> ref option \<Rightarrow> Stage" where
  "callOrigin env s r key useCache entry =
     (let cond = composeConditional (time_Parse env) s r entry
      in Fetched s key useCache entry cond (fetchFromOrigin env key cond (Method r)))"

definition fetchStage :: "Env \<Rightarrow> State \<Rightarrow> Request \<Rightarrow> Time \<Rightarrow> Stage" where
  "fetchStage env s r now =
     (let key = TrimPrefix (Path r) ''/''
      in if key = [] then Early (reply s http_NotFound)
         else if Contains key ''..'' then Early (reply s (http_Error (StatusText 400) 400))
         else if Method r \<noteq> ''GET'' \<and> Method r \<noteq> ''HEAD''
         then Early (reply s (http_Error (StatusText 405) 405))
         else
           (let useCache = shouldUseCache r;
                lookupCache = (useCache \<or> Method r = ''HEAD'')
            in case (if lookupCache then Cache_Get s (cacheKey key) else (None, s)) of
                 (None, s1) \<Rightarrow> callOrigin env s1 r key useCache None
               | (Some e, s1) \<Rightarrow>
                   (if Fresh (heap s1 e) now
                    then Early (reply s1 (writeCacheEntry s1 r e now ''HIT''))
                    else if useCache \<and> StaleButValid (heap s1 e) now \<and> Method r = ''GET''
                    then Early \<lparr> resp = writeCacheEntry s1 r e now ''STALE'', post = s1,
                                 spawned = Some (key, e) \<rparr>
                    else callOrigin env s1 r key useCache (Some e))))"

text \<open>The entry built from a buffered origin response, with the fallback for a TTL that is not positive.\<close>

definition newEntry :: "Config \<Rightarrow> Time \<Rightarrow> Object \<Rightarrow> bytes \<Rightarrow> Entry" where
  "newEntry cfg now obj body =
     (let e = \<lparr> Body = body, Header = cloneHeader (Headers obj), Status = StatusCode obj,
                StoredAt = now, TTL = ttlFromHeaders (Headers obj) (CacheTTL cfg),
                StaleTTL = CacheStaleTTL cfg, Size = of_nat (length body),
                ETag = oETag obj, LastModified = valueOrZero (oLastModified obj) \<rparr>
      in if sint (TTL e) \<le> 0 then e\<lparr> TTL := CacheTTL cfg \<rparr> else e)"

definition admit :: "Config \<Rightarrow> State \<Rightarrow> Request \<Rightarrow> Time \<Rightarrow> string \<Rightarrow> Object \<Rightarrow> bytes \<Rightarrow> Result" where
  "admit cfg s r now key obj body =
     (case alloc s (newEntry cfg now obj body) of
        (e, s1) \<Rightarrow>
          (let s2 = Cache_Set s1 (cacheKey key) e
           in \<lparr> resp = writeCacheEntry s2 r e now ''MISS'', post = s2, spawned = None \<rparr>))"

text \<open>
  Lines 246 to 260: the origin's headers and status, and for GET whatever the body
  stream still yields. \<open>None\<close> is the panic of reading a nil body.
\<close>

definition passThrough :: "State \<Rightarrow> Request \<Rightarrow> Object \<Rightarrow> ReadCloser option \<Rightarrow> Result option" where
  "passThrough s r obj body =
     (let h0 = copyHeaders Map.empty (Headers obj);
          h1 = Header_Set h0 ''X-Cache'' ''MISS'';
          h2 = (if 0 < sint (ContentLength obj)
                then Header_Set h1 ''Content-Length'' (Itoa (sint (ContentLength obj)))
                else h1)
      in if Method r = ''HEAD''
         then Some (reply s \<lparr> rStatus = StatusCode obj, rHeader = h2, rBody = [] \<rparr>)
         else (case body of
                 None \<Rightarrow> None
               | Some b \<Rightarrow>
                   Some (reply s \<lparr> rStatus = StatusCode obj, rHeader = h2, rBody = content b \<rparr>)))"

definition shouldStore :: "Config \<Rightarrow> Request \<Rightarrow> bool \<Rightarrow> Conditional \<Rightarrow> Object \<Rightarrow> bool" where
  "shouldStore cfg r useCache cond obj =
     (useCache \<and> Method r = ''GET'' \<and> Range cond = [] \<and> StatusCode obj = 200 \<and>
      0 < sint (ContentLength obj) \<and> sint (ContentLength obj) \<le> sint (MaxObjectSize cfg) \<and>
      \<not> hasNoStore (Headers obj))"

definition serveSuccess ::
    "Config \<Rightarrow> State \<Rightarrow> Request \<Rightarrow> Time \<Rightarrow> string \<Rightarrow> bool \<Rightarrow> Conditional \<Rightarrow> Object \<Rightarrow> Result option" where
  "serveSuccess cfg s r now key useCache cond obj =
     (if shouldStore cfg r useCache cond obj then
        (case oBody obj of
           None \<Rightarrow> None
         | Some b \<Rightarrow>
             (case ReadAllLimit b (MaxObjectSize cfg + 1) of
                (body, readErr, rest) \<Rightarrow>
                  if readErr then Some (reply s (http_Error (StatusText 502) 502))
                  else if sint (MaxObjectSize cfg) < int (length body)
                  then passThrough s r obj (Some rest)
                  else Some (admit cfg s r now key obj body)))
      else passThrough s r obj (oBody obj))"

definition dispatch :: "Config \<Rightarrow> Request \<Rightarrow> Time \<Rightarrow> Stage \<Rightarrow> Result option" where
  "dispatch cfg r now st =
     (case st of
        Early res \<Rightarrow> Some res
      | Fetched s key useCache entry cond out \<Rightarrow>
          (case out of
             Inl err \<Rightarrow> Some (handleOriginError s r err entry now (cacheKey key))
           | Inr obj \<Rightarrow> serveSuccess cfg s r now key useCache cond obj))"

definition objectHandler :: "Config \<Rightarrow> Env \<Rightarrow> State \<Rightarrow> Request \<Rightarrow> Time \<Rightarrow> Result option" where
  "objectHandler cfg env s r now = dispatch cfg r now (fetchStage env s r now)"

text \<open>
  The revalidation task, run on the state it finds when it is scheduled; \<open>now\<close> is its
  reading of the clock. \<open>None\<close> is the panic of reading a nil body.
\<close>

definition revalidate :: "Config \<Rightarrow> Env \<Rightarrow> State \<Rightarrow> string \<Rightarrow> ref \<Rightarrow> Time \<Rightarrow> State option" where
  "revalidate cfg env s key entry now =
     (let c0 = \<lparr> IfNoneMatch = [], IfModifiedSince = None, Range = [] \<rparr>;
          c1 = (if ETag (heap s entry) \<noteq> [] then c0\<lparr> IfNoneMatch := ETag (heap s entry) \<rparr>
                else c0);
          cond = (if \<not> IsZero (LastModified (heap s entry))
                  then c1\<lparr> IfModifiedSince := Some (LastModified (heap s entry)) \<rparr> else c1)
      in case GetObject env key cond of
           Inl err \<Rightarrow>
             (if err = ErrNotModified
              then Some (Cache_Set
                     (s\<lparr> heap := (heap s)(entry := (heap s entry)\<lparr> StoredAt := now \<rparr>) \<rparr>)
                     (cacheKey key) entry)
              else Some s)
         | Inr obj \<Rightarrow>
             (if sint (ContentLength obj) \<le> 0
                  \<or> sint (MaxObjectSize cfg) < sint (ContentLength obj)
              then Some s
              else
                (case oBody obj of
                   None \<Rightarrow> None
                 | Some b \<Rightarrow>
                     (case ReadAllLimit b (MaxObjectSize cfg + 1) of
                        (body, readErr, rest) \<Rightarrow>
                          if readErr then Some s
                          else if sint (MaxObjectSize cfg) < int (length body) then Some s
                          else
                            (let updated =
                                   \<lparr> Body = body, Header = cloneHeader (Headers obj),
                                     Status = StatusCode obj, StoredAt = now,
                                     TTL = ttlFromHeaders (Headers obj) (CacheTTL cfg),
                                     StaleTTL = CacheStaleTTL cfg,
                                     Size = of_nat (length body), ETag = oETag obj,
                                     LastModified = valueOrZero (oLastModified obj) \<rparr>
                             in (case alloc s updated of
                                   (u, s1) \<Rightarrow> Some (Cache_Set s1 (cacheKey key) u)))))))"

section \<open>Concrete requests, origins and states\<close>

definition cfg_small :: Config where
  "cfg_small = \<lparr> MaxObjectSize = 4, CacheTTL = 300000000000, CacheStaleTTL = 120000000000 \<rparr>"

definition cfg_std :: Config where
  "cfg_std = \<lparr> MaxObjectSize = 16, CacheTTL = 300000000000,
       CacheStaleTTL = 120000000000 \<rparr>"

definition state_empty :: State where
  "state_empty = \<lparr> heap = (\<lambda>r. zeroEntry), nxt = 0,
       cache = \<lparr> lru = \<lparr> size = 8, items = [] \<rparr>, ttl = 300000000000,
                 stale = 120000000000, cap = 8 \<rparr> \<rparr>"

text \<open>
  An S3 answer with the given body stream, declared length, \<open>Cache-Control\<close> and
  \<open>Content-Range\<close>, and an origin that gives this answer to every \<open>GetObject\<close>.
\<close>

definition s3_answer :: "bytes \<Rightarrow> bool \<Rightarrow> int64 option \<Rightarrow> string \<Rightarrow> string \<Rightarrow> GetObjectOutput" where
  "s3_answer bs brk len cc cr =
     \<lparr> gBody = \<lparr> content = bs, broken = brk \<rparr>, gContentType = ''text/plain'',
       gCacheControl = cc, gLastModified = None, gETag = ''\"v1\"'', gContentEncoding = [],
       gAcceptRanges = [], gContentRange = cr, gContentDisposition = [],
       gContentLanguage = [], gExpiresString = [], gMetadata = [], gContentLength = len \<rparr>"

definition env_of :: "GetObjectOutput \<Rightarrow> Env" where
  "env_of a =
     \<lparr> s3_GetObject = (\<lambda>key cond. Inr a), s3_HeadObject = (\<lambda>key cond. Inl OtherError),
       time_Format = (\<lambda>t. []), time_Parse = (\<lambda>v. None) \<rparr>"

definition req_of :: "string \<Rightarrow> string \<Rightarrow> Request" where
  "req_of m p = \<lparr> Method = m, Path = p, ReqHeader = Map.empty, Query = Map.empty \<rparr>"

text \<open>
  The conditions of admission as the specification lists them, the last one being that
  the buffered read succeeds and stays within \<open>MaxObjectSize\<close>.
\<close>

definition admission_conditions :: "Config \<Rightarrow> Request \<Rightarrow> Conditional \<Rightarrow> Object \<Rightarrow> bool" where
  "admission_conditions cfg r cond obj =
     (shouldUseCache r \<and> Method r = ''GET'' \<and> Range cond = [] \<and> StatusCode obj = 200 \<and>
      0 < sint (ContentLength obj) \<and> sint (ContentLength obj) \<le> sint (MaxObjectSize cfg) \<and>
      \<not> hasNoStore (Headers obj) \<and>
      (case oBody obj of
         None \<Rightarrow> False
       | Some b \<Rightarrow>
           (case ReadAllLimit b (MaxObjectSize cfg + 1) of
              (body, readErr, rest) \<Rightarrow>
                \<not> readErr \<and> int (length body) \<le> sint (MaxObjectSize cfg))))"

text \<open>The bytes that the admission path buffers from an object's body.\<close>

definition bufferedBody :: "Config \<Rightarrow> Object \<Rightarrow> bytes" where
  "bufferedBody cfg obj =
     (case oBody obj of
        None \<Rightarrow> []
      | Some b \<Rightarrow> fst (ReadAllLimit b (MaxObjectSize cfg + 1)))"

text \<open>
  A state whose cache holds \<open>a.txt\<close>: five bytes stored at instant 0 with a TTL of 60 s
  and a stale window of 120 s.
\<close>

definition state_stale :: State where
  "state_stale =
     \<lparr> heap = (\<lambda>r. zeroEntry)
         (0 := \<lparr> Body = ''hello'', Header = Map.empty, Status = 200, StoredAt = 0,
                 TTL = 60000000000, StaleTTL = 120000000000, Size = 5,
                 ETag = ''\"v1\"'', LastModified = 0 \<rparr>),
       nxt = 1,
       cache = \<lparr> lru = \<lparr> size = 8, items = [(''a.txt'', 0)] \<rparr>, ttl = 300000000000,
                 stale = 120000000000, cap = 8 \<rparr> \<rparr>"

text \<open>
  Origin answers used below: five bytes with \<open>max-age=60\<close>; a stream that breaks after
  two of five declared bytes; eight bytes behind a declared length of three; a partial
  answer carrying a \<open>Content-Range\<close>.
\<close>

definition ans_hello :: GetObjectOutput where
  "ans_hello = s3_answer ''hello'' False (Some 5) ''max-age=60'' []"

definition ans_broken :: GetObjectOutput where
  "ans_broken = s3_answer ''he'' True (Some 5) ''max-age=60'' []"

definition ans_long :: GetObjectOutput where
  "ans_long = s3_answer ''abcdefgh'' False (Some 3) [] []"

definition ans_partial :: GetObjectOutput where
  "ans_partial = s3_answer ''hell'' False (Some 4) [] ''bytes 0-3/5''"

definition cond_none :: Conditional where
  "cond_none = \<lparr> IfNoneMatch = [], IfModifiedSince = None, Range = [] \<rparr>"

section \<open>Freshness and the stale window\<close>

lemma sint_add_no_overflow:
  fixes a b :: "64 word"
  assumes "0 \<le> sint a" "0 \<le> sint b" "sint a + sint b < 2 ^ 63"
  shows "sint (a + b) = sint a + sint b"
proof -
  have "sint (a + b) = signed_take_bit 63 (sint a + sint b)"
    by (simp add: sint_word_ariths)
  also have "\<dots> = sint a + sint b"
    using assms by (simp add: signed_take_bit_int_eq_self)
  finally show ?thesis .
qed

text \<open>
  C2 (counterexample). With \<open>ttl = 10\<close>, \<open>staleTtl = 5\<close>, stored at instant 0 and read
  at instant 3, the entry is fresh and \<open>StaleButValid\<close> is true as well: the method
  has no lower bound.
\<close>

theorem C2_fresh_and_stale_counterexample:
  "0 \<le> sint (TTL entry_c2) \<and> 0 \<le> sint (StaleTTL entry_c2) \<and>
   Fresh entry_c2 3 \<and> StaleButValid entry_c2 3 \<and> \<not> spec_staleButValid entry_c2 3"
  by (simp add: entry_c2_def Fresh_def StaleButValid_def spec_staleButValid_def
      Add_def Before_def)

text \<open>
  C2 (amended). \<open>StaleButValid e t\<close> is the upper bound alone,
  \<open>t < storedAt + (ttl + staleTtl)\<close>. For \<open>ttl \<ge> 0\<close>, \<open>staleTtl \<ge> 0\<close> whose sum does
  not overflow an \<open>int64\<close>, a fresh entry is therefore also \<open>StaleButValid\<close>, and the
  stale window of the specification is exactly \<open>StaleButValid\<close> without \<open>Fresh\<close>.
\<close>

theorem C2_stale_window:
  assumes "0 \<le> sint (TTL e)" and "0 \<le> sint (StaleTTL e)"
    and "sint (TTL e) + sint (StaleTTL e) < 2 ^ 63"
  shows "(StaleButValid e t \<longleftrightarrow> t < StoredAt e + sint (TTL e) + sint (StaleTTL e))
       \<and> (Fresh e t \<longrightarrow> StaleButValid e t)
       \<and> (spec_staleButValid e t \<longleftrightarrow> StaleButValid e t \<and> \<not> Fresh e t)"
proof -
  have s: "sint (TTL e + StaleTTL e) = sint (TTL e) + sint (StaleTTL e)"
    using assms by (rule sint_add_no_overflow)
  show ?thesis
    using assms(2) by (auto simp: StaleButValid_def Fresh_def spec_staleButValid_def
        Add_def Before_def s)
qed

theorem C2_stale_window_witness:
  "0 \<le> sint (TTL entry_c2) \<and> 0 \<le> sint (StaleTTL entry_c2)
   \<and> sint (TTL entry_c2) + sint (StaleTTL entry_c2) < 2 ^ 63
   \<and> StaleButValid entry_c2 12 \<and> \<not> Fresh entry_c2 12 \<and> spec_staleButValid entry_c2 12
   \<and> \<not> StaleButValid entry_c2 15"
proof -
  have h1: "0 \<le> sint (TTL entry_c2)" by (simp add: entry_c2_def)
  have h2: "0 \<le> sint (StaleTTL entry_c2)" by (simp add: entry_c2_def)
  have h3: "sint (TTL entry_c2) + sint (StaleTTL entry_c2) < 2 ^ 63"
    by (simp add: entry_c2_def)
  have v: "StoredAt entry_c2 + sint (TTL entry_c2) + sint (StaleTTL entry_c2) = 15"
    by (simp add: entry_c2_def)
  have nf: "\<not> Fresh entry_c2 12"
    by (simp add: entry_c2_def Fresh_def Add_def Before_def)
  from C2_stale_window [OF h1 h2 h3, of 12] C2_stale_window [OF h1 h2 h3, of 15]
  show ?thesis using h1 h2 h3 nf unfolding v by simp
qed

section \<open>Admin authentication\<close>

text \<open>
  C3 (evaluation at the failing input). The configured token is \<open>Secret\<close>; the request
  has no \<open>X-Auth-Token\<close> header and carries \<open>Authorization: Bearer Secret\<close>, the token
  verbatim. \<open>checkToken\<close> lower-cases the whole header value before it cuts the scheme
  off, compares \<open>secret\<close> with \<open>Secret\<close> and rejects the request.
\<close>

theorem C3_uppercase_bearer_token_rejected:
  "Header_Get (ReqHeader (req_bearer ''Bearer Secret'')) ''X-Auth-Token'' = []
   \<and> Header_Get (ReqHeader (req_bearer ''Bearer Secret'')) ''Authorization''
       = ''Bearer '' @ ''Secret''
   \<and> \<not> checkToken (req_bearer ''Bearer Secret'') ''Secret''"
  by code_simp

section \<open>Request directives that bypass the cache\<close>

lemma HasPrefix_iff: "HasPrefix s p \<longleftrightarrow> (\<exists>v. s = p @ v)"
  unfolding HasPrefix_def
  by (metis append_eq_conv_conj append_take_drop_id)

lemma Contains_iff: "Contains s sub \<longleftrightarrow> (\<exists>u v. s = u @ sub @ v)"
proof (induction s)
  case Nil
  show ?case by simp
next
  case (Cons c cs)
  have "(\<exists>u v. c # cs = u @ sub @ v)
        \<longleftrightarrow> (\<exists>v. c # cs = sub @ v) \<or> (\<exists>u v. cs = u @ sub @ v)"
  proof
    assume "\<exists>u v. c # cs = u @ sub @ v"
    then obtain u v where uv: "c # cs = u @ sub @ v" by blast
    show "(\<exists>v. c # cs = sub @ v) \<or> (\<exists>u v. cs = u @ sub @ v)"
    proof (cases u)
      case Nil
      with uv show ?thesis by auto
    next
      case (Cons a u')
      with uv have "cs = u' @ sub @ v" by simp
      then show ?thesis by blast
    qed
  next
    assume "(\<exists>v. c # cs = sub @ v) \<or> (\<exists>u v. cs = u @ sub @ v)"
    then show "\<exists>u v. c # cs = u @ sub @ v"
    proof
      assume "\<exists>v. c # cs = sub @ v"
      then obtain v where "c # cs = [] @ sub @ v" by auto
      then show ?thesis by blast
    next
      assume "\<exists>u v. cs = u @ sub @ v"
      then obtain u v where "cs = u @ sub @ v" by blast
      then have "c # cs = (c # u) @ sub @ v" by simp
      then show ?thesis by blast
    qed
  qed
  with Cons show ?case by (simp add: HasPrefix_iff)
qed

text \<open>
  C6 (counterexample). A GET request with \<open>Cache-Control: no-cacheable\<close> has no token
  \<open>no-cache\<close>, so the token rule of the specification lets it use the cache;
  \<open>shouldUseCache\<close> answers false, because \<open>no-cache\<close> is a substring of the value.
\<close>

theorem C6_substring_counterexample:
  "spec_shouldUseCache (req_cc ''no-cacheable'') \<and> \<not> shouldUseCache (req_cc ''no-cacheable'')"
  by code_simp

text \<open>
  C6 (amended). \<open>shouldUseCache\<close> is true exactly when the method is GET, the \<open>Range\<close>
  header is empty, the lower-cased \<open>Cache-Control\<close> value contains neither \<open>no-cache\<close>
  nor \<open>max-age=0\<close> as a substring, and the lower-cased \<open>Pragma\<close> value does not contain
  \<open>no-cache\<close> as a substring.
\<close>

theorem C6_shouldUseCache_substring:
  "shouldUseCache r \<longleftrightarrow>
     Method r = ''GET'' \<and> Header_Get (ReqHeader r) ''Range'' = [] \<and>
     \<not> (\<exists>u v. ToLower (Header_Get (ReqHeader r) ''Cache-Control'') = u @ ''no-cache'' @ v) \<and>
     \<not> (\<exists>u v. ToLower (Header_Get (ReqHeader r) ''Cache-Control'') = u @ ''max-age=0'' @ v) \<and>
     \<not> (\<exists>u v. ToLower (Header_Get (ReqHeader r) ''Pragma'') = u @ ''no-cache'' @ v)"
  unfolding shouldUseCache_def Let_def Contains_iff by auto

theorem C6_shouldUseCache_substring_witness:
  "\<not> shouldUseCache (req_cc ''No-Cacheable'')"
proof -
  have "ToLower (Header_Get (ReqHeader (req_cc ''No-Cacheable'')) ''Cache-Control'')
        = [] @ ''no-cache'' @ ''able''"
    by code_simp
  then have "\<exists>u v. ToLower (Header_Get (ReqHeader (req_cc ''No-Cacheable'')) ''Cache-Control'')
        = u @ ''no-cache'' @ v"
    by blast
  with C6_shouldUseCache_substring [of "req_cc ''No-Cacheable''"] show ?thesis by blast
qed

section \<open>The LRU bound and in-place defaults of \<open>Set\<close>\<close>


lemma map_fst_filter_key: "map fst (filter (\<lambda>p. fst p \<noteq> k) xs) = removeAll k (map fst xs)"
  by (induction xs) auto

lemma cached_keys_Set:
  "cached_keys (Cache_Set s k r) = keys_add (size (lru (cache s))) k (cached_keys s)"
proof (cases "map_of (items (lru (cache s))) k")
  case None
  then have "k \<notin> set (map fst (items (lru (cache s))))"
    by (simp add: map_of_eq_None_iff)
  with None show ?thesis
    by (simp add: cached_keys_def Cache_Set_def lru_Add_def keys_add_def Let_def map_butlast)
next
  case (Some v)
  then have "k \<in> set (map fst (items (lru (cache s))))"
    by (metis map_of_eq_None_iff option.distinct(1) set_map)
  with Some show ?thesis
    by (simp add: cached_keys_def Cache_Set_def lru_Add_def keys_add_def Let_def map_fst_filter_key)
qed

lemma Cache_Set_frame:
  "size (lru (cache (Cache_Set s k r))) = size (lru (cache s))"
  "cap (cache (Cache_Set s k r)) = cap (cache s)"
  by (simp_all add: Cache_Set_def lru_Add_def Let_def split: option.splits)

lemma take_removeAll_absent:
  "k \<notin> set (take m D) \<Longrightarrow> take m (removeAll k D) = take m D"
  by (induction D arbitrary: m) (auto simp: take_Cons split: nat.splits)

lemma removeAll_take_present:
  "distinct D \<Longrightarrow> k \<in> set (take n D) \<Longrightarrow> removeAll k (take n D) = take (n - 1) (removeAll k D)"
proof (induction D arbitrary: n)
  case Nil
  then show ?case by simp
next
  case (Cons x D)
  then obtain m where n: "n = Suc m" by (cases n) auto
  show ?case
  proof (cases "x = k")
    case True
    with Cons.prems have "k \<notin> set D" by simp
    then have "k \<notin> set (take m D)" by (meson in_set_takeD)
    with True \<open>k \<notin> set D\<close> show ?thesis by (simp add: n)
  next
    case False
    with Cons.prems n have k: "k \<in> set (take m D)" by simp
    then have "m \<noteq> 0" by (cases m) auto
    then obtain m' where m: "m = Suc m'" by (cases m) auto
    from Cons.IH [of m] Cons.prems k have "removeAll k (take m D) = take (m - 1) (removeAll k D)"
      by simp
    with False show ?thesis by (simp add: n m)
  qed
qed

lemma keys_add_take:
  assumes n: "0 < n" and d: "distinct D" and k: "k \<notin> set pre" and D: "D = pre @ F"
  shows "keys_add (int n) k (take n D) = take n (k # pre @ removeAll k F)"
proof -
  have r: "removeAll k D = pre @ removeAll k F" using k D by simp
  obtain m where m: "n = Suc m" using n by (cases n) auto
  show ?thesis
  proof (cases "k \<in> set (take n D)")
    case True
    then show ?thesis
      using removeAll_take_present [OF d True] r by (simp add: keys_add_def m)
  next
    case False
    have t: "take m (removeAll k D) = take m D"
      using False take_removeAll_absent [of k m D] by (metis m le_add2 plus_1_eq_Suc set_take_subset_set_take subsetD)
    show ?thesis
    proof (cases "n \<le> length D")
      case True
      then have "butlast (take n D) = take m D"
        by (simp add: butlast_take m)
      moreover from True m have "take n D \<noteq> []" by auto
      ultimately show ?thesis using False True t r
        by (simp add: keys_add_def m min_def)
    next
      case False2: False
      then have "take n D = D" by simp
      moreover have "take m (removeAll k D) = removeAll k D"
        using False2 m by (metis length_removeAll_less_eq take_all_iff not_less_eq_eq order_trans)
      ultimately show ?thesis using False False2 t r
        by (simp add: keys_add_def m)
    qed
  qed
qed


lemma Set_all_append: "Set_all s (xs @ ys) = Set_all (Set_all s xs) ys"
  by (induction s xs rule: Set_all.induct) auto

lemma Set_all_frame:
  "size (lru (cache (Set_all s kvs))) = size (lru (cache s)) \<and>
   cap (cache (Set_all s kvs)) = cap (cache s)"
  by (induction s kvs rule: Set_all.induct) (auto simp: Cache_Set_frame)

lemma cached_keys_Set_all:
  assumes inv: "cache_inv s" and d: "distinct (map fst kvs)"
  shows "cached_keys (Set_all s kvs) =
     take (nat (size (lru (cache s))))
       (rev (map fst kvs) @ filter (\<lambda>x. x \<notin> set (map fst kvs)) (cached_keys s))"
  using d
proof (induction kvs rule: rev_induct)
  case Nil
  from inv have "length (cached_keys s) \<le> nat (size (lru (cache s)))"
    unfolding cache_inv_def by linarith
  then show ?case by simp
next
  case (snoc kv kvs)
  obtain k r where kv: "kv = (k, r)" by (cases kv)
  let ?n = "nat (size (lru (cache s)))"
  let ?F = "filter (\<lambda>x. x \<notin> set (map fst kvs)) (cached_keys s)"
  let ?D = "rev (map fst kvs) @ ?F"
  from snoc.prems have dk: "distinct (map fst kvs)" and kn: "k \<notin> set (rev (map fst kvs))"
    by (simp_all add: kv)
  from inv have n: "0 < ?n" and sz: "size (lru (cache s)) = int ?n"
    by (simp_all add: cache_inv_def)
  from inv dk have dD: "distinct ?D" by (auto simp: cache_inv_def)
  have ih: "cached_keys (Set_all s kvs) = take ?n ?D" using snoc.IH dk by simp
  have "cached_keys (Set_all s (kvs @ [kv])) =
        keys_add (size (lru (cache s))) k (cached_keys (Set_all s kvs))"
    by (simp add: Set_all_append kv cached_keys_Set Set_all_frame)
  also have "\<dots> = keys_add (int ?n) k (take ?n ?D)" using ih sz by simp
  also have "\<dots> = take ?n (k # rev (map fst kvs) @ removeAll k ?F)"
    by (rule keys_add_take [OF n dD kn refl])
  also have "removeAll k ?F = filter (\<lambda>x. x \<notin> set (map fst (kvs @ [kv]))) (cached_keys s)"
    by (auto simp: kv removeAll_filter_not_eq intro: filter_cong)
  finally show ?case by (simp add: kv)
qed

text \<open>
  C9. From any cache of the reachable shape, after \<open>Set\<close> on \<open>N\<close> pairwise distinct
  keys with \<open>N > Capacity\<close> and nothing interleaved, \<open>Stats\<close> reports
  \<open>(Capacity, Capacity)\<close>, the cache holds the last \<open>Capacity\<close> keys of the run (most
  recent first), and the keys of the run that are absent are exactly its first
  \<open>N - Capacity\<close> keys, the least recently set ones.
\<close>

theorem C9_lru_capacity:
  assumes inv: "cache_inv s" and d: "distinct (map fst kvs)"
    and N: "cap (cache s) < int (length kvs)"
  shows "Cache_Stats (Set_all s kvs) = (cap (cache s), cap (cache s))
     \<and> cached_keys (Set_all s kvs) = rev (drop (length kvs - nat (cap (cache s))) (map fst kvs))
     \<and> {k \<in> set (map fst kvs). k \<notin> set (cached_keys (Set_all s kvs))}
         = set (take (length kvs - nat (cap (cache s))) (map fst kvs))"
proof -
  let ?c = "nat (cap (cache s))"
  let ?ks = "map fst kvs"
  from inv have c: "cap (cache s) = size (lru (cache s))" "0 < cap (cache s)"
    by (simp_all add: cache_inv_def)
  from N c have le: "?c \<le> length ?ks" by simp
  have keys: "cached_keys (Set_all s kvs) = rev (drop (length kvs - ?c) ?ks)"
    using cached_keys_Set_all [OF inv d] c le by (simp add: take_rev)
  have len: "length (cached_keys (Set_all s kvs)) = ?c"
    unfolding keys using le by simp
  have stats: "Cache_Stats (Set_all s kvs) = (cap (cache s), cap (cache s))"
    using len c by (simp add: Cache_Stats_def lru_Len_def cached_keys_def Set_all_frame)
  have "distinct (take (length kvs - ?c) ?ks @ drop (length kvs - ?c) ?ks)"
    using d by (simp only: append_take_drop_id)
  then have disj: "set (take (length kvs - ?c) ?ks) \<inter> set (drop (length kvs - ?c) ?ks) = {}"
    by (rule distinct_append [THEN iffD1, THEN conjunct2, THEN conjunct2])
  have un: "set ?ks = set (take (length kvs - ?c) ?ks) \<union> set (drop (length kvs - ?c) ?ks)"
    by (metis append_take_drop_id set_append)
  have missing: "{k \<in> set ?ks. k \<notin> set (cached_keys (Set_all s kvs))}
         = set (take (length kvs - ?c) ?ks)"
    unfolding keys using disj un by auto
  from stats keys missing show ?thesis by blast
qed

theorem C9_lru_capacity_witness:
  "cache_inv state_c9 \<and> distinct (map fst [(''a'', 0::nat), (''b'', 1), (''c'', 2)])
   \<and> cap (cache state_c9) < int (length [(''a'', 0::nat), (''b'', 1), (''c'', 2)])
   \<and> Cache_Stats (Set_all state_c9 [(''a'', 0), (''b'', 1), (''c'', 2)]) = (2, 2)
   \<and> cached_keys (Set_all state_c9 [(''a'', 0), (''b'', 1), (''c'', 2)]) = [''c'', ''b'']
   \<and> {k \<in> set (map fst [(''a'', 0::nat), (''b'', 1), (''c'', 2)]).
        k \<notin> set (cached_keys (Set_all state_c9 [(''a'', 0), (''b'', 1), (''c'', 2)]))} = {''a''}"
proof -
  have i: "cache_inv state_c9" by (simp add: cache_inv_def state_c9_def cached_keys_def)
  have d: "distinct (map fst [(''a'', 0::nat), (''b'', 1), (''c'', 2)])" by simp
  have n: "cap (cache state_c9) < int (length [(''a'', 0::nat), (''b'', 1), (''c'', 2)])"
    by (simp add: state_c9_def)
  have c: "nat (cap (cache state_c9)) = 2" "cap (cache state_c9) = 2" by (simp_all add: state_c9_def)
  from C9_lru_capacity [OF i d n] i d n show ?thesis
    unfolding c by auto
qed


lemma keys_add_inv:
  assumes "0 < n" "distinct ks" "int (length ks) \<le> n"
  shows "distinct (keys_add n k ks) \<and> int (length (keys_add n k ks)) \<le> n"
proof (cases "k \<in> set ks")
  case True
  then have "length (removeAll k ks) < length ks" by (rule length_removeAll_less)
  with True assms show ?thesis by (simp add: keys_add_def distinct_removeAll)
next
  case False
  with assms show ?thesis
    by (auto simp: keys_add_def distinct_butlast dest: in_set_butlastD)
qed

lemma cache_inv_newState: "newState c t st = Some s \<Longrightarrow> cache_inv s"
  by (auto simp: newState_def Cache_New_def lru_New_def cache_inv_def cached_keys_def
      split: if_splits option.splits)

lemma cache_inv_Set: "cache_inv s \<Longrightarrow> cache_inv (Cache_Set s k r)"
  using keys_add_inv [of "size (lru (cache s))" "cached_keys s" k]
  by (simp add: cache_inv_def cached_keys_Set Cache_Set_frame)

lemma cache_inv_Delete: "cache_inv s \<Longrightarrow> cache_inv (Cache_Delete s k)"
proof -
  assume a: "cache_inv s"
  have "length (removeAll k (cached_keys s)) \<le> length (cached_keys s)"
    by (rule length_removeAll_less_eq)
  with a show ?thesis
    by (simp add: cache_inv_def cached_keys_def Cache_Delete_def lru_Remove_def
        map_fst_filter_key distinct_removeAll)
qed

lemma cache_inv_Get: "cache_inv s \<Longrightarrow> cache_inv (snd (Cache_Get s k))"
proof (cases "map_of (items (lru (cache s))) k")
  case None
  assume "cache_inv s"
  with None show ?thesis by (simp add: Cache_Get_def lru_Get_def)
next
  case (Some r)
  assume a: "cache_inv s"
  from Some have k: "k \<in> set (cached_keys s)"
    unfolding cached_keys_def by (metis map_of_eq_None_iff option.distinct(1) set_map)
  then have "length (removeAll k (cached_keys s)) < length (cached_keys s)"
    by (rule length_removeAll_less)
  with a Some show ?thesis
    by (simp add: cache_inv_def cached_keys_def Cache_Get_def lru_Get_def
        map_fst_filter_key distinct_removeAll)
qed

text \<open>
  C10. \<open>Set key r\<close> writes through the caller's reference \<open>r\<close>: the entry at \<open>r\<close> gets
  the cache's default TTL when its TTL is exactly 0 (likewise the stale TTL) and is
  otherwise unchanged, the cache then holds the reference \<open>r\<close> itself under the key
  (a later \<open>Get\<close> returns \<open>r\<close>), and a negative TTL is stored as it is.
\<close>

theorem C10_Set_writes_through_reference:
  assumes "0 < size (lru (cache s))"
  shows "heap (Cache_Set s key r) r =
       (heap s r)\<lparr> TTL := (if TTL (heap s r) = 0 then ttl (cache s) else TTL (heap s r)),
                   StaleTTL := (if StaleTTL (heap s r) = 0 then stale (cache s)
                                else StaleTTL (heap s r)) \<rparr>
   \<and> fst (Cache_Get (Cache_Set s key r) key) = Some r
   \<and> (sint (TTL (heap s r)) < 0 \<longrightarrow> TTL (heap (Cache_Set s key r) r) = TTL (heap s r))"
proof -
  have h: "heap (Cache_Set s key r) r =
       (heap s r)\<lparr> TTL := (if TTL (heap s r) = 0 then ttl (cache s) else TTL (heap s r)),
                   StaleTTL := (if StaleTTL (heap s r) = 0 then stale (cache s)
                                else StaleTTL (heap s r)) \<rparr>"
    by (simp add: Cache_Set_def Let_def)
  have m: "map_of (items (lru_Add (lru (cache s)) key r)) key = Some r"
  proof (cases "map_of (items (lru (cache s))) key")
    case None
    have "butlast ((key, r) # items (lru (cache s))) = (key, r) # butlast (items (lru (cache s)))"
      if "size (lru (cache s)) < int (length (items (lru (cache s)))) + 1"
      using that assms by (cases "items (lru (cache s))") auto
    with None show ?thesis by (auto simp: lru_Add_def Let_def)
  next
    case (Some old)
    then show ?thesis by (simp add: lru_Add_def)
  qed
  have g: "fst (Cache_Get (Cache_Set s key r) key) = Some r"
    using m by (simp add: Cache_Get_def Cache_Set_def lru_Get_def Let_def)
  have n: "sint (TTL (heap s r)) < 0 \<longrightarrow> TTL (heap (Cache_Set s key r) r) = TTL (heap s r)"
    unfolding h by auto
  from h g n show ?thesis by blast
qed

theorem C10_Set_writes_through_reference_witness:
  "0 < size (lru (cache state_c10))
   \<and> TTL (heap state_c10 1) = 0 \<and> TTL (heap (Cache_Set state_c10 ''k'' 1) 1) = 7
   \<and> StaleTTL (heap (Cache_Set state_c10 ''k'' 1) 1) = 9
   \<and> fst (Cache_Get (Cache_Set state_c10 ''k'' 1) ''k'') = Some 1
   \<and> sint (TTL (heap state_c10 0)) < 0
   \<and> TTL (heap (Cache_Set state_c10 ''j'' 0) 0) = - 1"
proof -
  have p: "0 < size (lru (cache state_c10))" by (simp add: state_c10_def)
  have v: "TTL (heap state_c10 1) = 0" "StaleTTL (heap state_c10 1) = 0"
    "ttl (cache state_c10) = 7" "stale (cache state_c10) = 9"
    "TTL (heap state_c10 0) = - 1"
    by (simp_all add: state_c10_def zeroEntry_def)
  have neg: "sint (TTL (heap state_c10 0)) < 0" unfolding v by simp
  from C10_Set_writes_through_reference [OF p, of "''k''" 1]
       C10_Set_writes_through_reference [OF p, of "''j''" 0]
  show ?thesis using p neg v by simp
qed

section \<open>The object handler\<close>

lemma fetchFromOrigin_body:
  assumes "fetchFromOrigin env key cond m = Inr obj" and "m \<noteq> ''HEAD''"
  shows "\<exists>b. oBody obj = Some b"
  using assms
  by (auto simp: fetchFromOrigin_def GetObject_def toObject_def Let_def split: sum.splits)

lemma callOrigin_Fetched:
  assumes "callOrigin env s0 r k u e = Fetched s1 key uc entry cond out"
  shows "s1 = s0 \<and> key = k \<and> uc = u \<and> entry = e
       \<and> cond = composeConditional (time_Parse env) s0 r e
       \<and> out = fetchFromOrigin env k cond (Method r)"
  using assms by (auto simp: callOrigin_def Let_def)

lemma fetchStage_Fetched:
  assumes "fetchStage env s r now = Fetched s1 key uc entry cond out"
  shows "key = TrimPrefix (Path r) ''/'' \<and> key \<noteq> [] \<and> \<not> Contains key ''..''
       \<and> (Method r = ''GET'' \<or> Method r = ''HEAD'') \<and> uc = shouldUseCache r
       \<and> cond = composeConditional (time_Parse env) s1 r entry
       \<and> out = fetchFromOrigin env key cond (Method r)"
  using assms
  by (auto simp: fetchStage_def Let_def split: if_splits prod.splits option.splits
      dest!: callOrigin_Fetched)

lemma passThrough_Some:
  "Method r = ''HEAD'' \<or> body \<noteq> None \<Longrightarrow> \<exists>res. passThrough s r obj body = Some res \<and> post res = s"
  by (auto simp: passThrough_def Let_def reply_def)

lemma post_admit:
  "post (admit cfg s r now key obj body) =
     Cache_Set (snd (alloc s (newEntry cfg now obj body))) key (nxt s)"
  by (simp add: admit_def alloc_def cacheKey_def Let_def)

lemma Cache_Set_nxt: "nxt (Cache_Set s k e) = nxt s"
  by (simp add: Cache_Set_def Let_def)

lemma admit_changes_state: "post (admit cfg s r now key obj body) \<noteq> s"
proof
  assume "post (admit cfg s r now key obj body) = s"
  then have "nxt (post (admit cfg s r now key obj body)) = nxt s" by simp
  then show False by (simp add: post_admit Cache_Set_nxt alloc_def)
qed


lemma objectHandler_Fetched_success:
  assumes "fetchStage env s r now = Fetched s1 key uc entry cond (Inr obj)"
  shows "objectHandler cfg env s r now = serveSuccess cfg s1 r now key uc cond obj"
  using assms by (simp add: objectHandler_def dispatch_def)

text \<open>
  C8. When the handler has reached the origin and the outcome is a success, it returns
  a result, and a new entry is admitted exactly under the listed conditions
  (\<open>admission_conditions\<close>): then the state it leaves is the state after the cache probe
  with the entry built from the buffered body allocated and \<open>Set\<close> under the key, and
  it differs from that state; in every other case the state after the probe is left as
  it is.
\<close>

theorem C8_admission_iff:
  assumes f: "fetchStage env s r now = Fetched s1 key uc entry cond (Inr obj)"
  shows "\<exists>res. objectHandler cfg env s r now = Some res \<and>
           (if admission_conditions cfg r cond obj
            then post res = Cache_Set (snd (alloc s1 (newEntry cfg now obj (bufferedBody cfg obj))))
                              key (nxt s1)
                 \<and> post res \<noteq> s1
            else post res = s1)"
proof -
  note F = fetchStage_Fetched [OF f]
  have h: "objectHandler cfg env s r now = serveSuccess cfg s1 r now key uc cond obj"
    by (rule objectHandler_Fetched_success [OF f])
  have uc: "uc = shouldUseCache r" using F by simp
  have body: "Method r = ''HEAD'' \<or> oBody obj \<noteq> None"
  proof (cases "Method r = ''HEAD''")
    case True then show ?thesis by simp
  next
    case False
    from F have "fetchFromOrigin env key cond (Method r) = Inr obj" by simp
    from fetchFromOrigin_body [OF this False] show ?thesis by auto
  qed
  show ?thesis
  proof (cases "shouldStore cfg r uc cond obj")
    case False
    then have na: "\<not> admission_conditions cfg r cond obj"
      by (auto simp: shouldStore_def admission_conditions_def uc)
    from passThrough_Some [OF body, of s1 obj] False na show ?thesis
      by (auto simp: h serveSuccess_def)
  next
    case True
    then have get: "Method r = ''GET''" by (simp add: shouldStore_def)
    with body obtain b where b: "oBody obj = Some b" by auto
    obtain bs e rest where ra: "ReadAllLimit b (MaxObjectSize cfg + 1) = (bs, e, rest)"
      by (cases "ReadAllLimit b (MaxObjectSize cfg + 1)") auto
    have ac: "admission_conditions cfg r cond obj
              \<longleftrightarrow> \<not> e \<and> int (length bs) \<le> sint (MaxObjectSize cfg)"
      using True by (simp add: shouldStore_def admission_conditions_def uc b ra)
    have bb: "bufferedBody cfg obj = bs" by (simp add: bufferedBody_def b ra)
    show ?thesis
    proof (cases "e")
      case True
      with \<open>shouldStore cfg r uc cond obj\<close> ac show ?thesis
        by (simp add: h serveSuccess_def b ra reply_def)
    next
      case noerr: False
      show ?thesis
      proof (cases "sint (MaxObjectSize cfg) < int (length bs)")
        case True
        have "Method r = ''HEAD'' \<or> Some rest \<noteq> None" by simp
        from passThrough_Some [OF this, of s1 obj] True noerr
          \<open>shouldStore cfg r uc cond obj\<close> ac show ?thesis
          by (auto simp: h serveSuccess_def b ra)
      next
        case False
        have "Cache_Set (snd (alloc s1 (newEntry cfg now obj bs))) key (nxt s1) \<noteq> s1"
          using admit_changes_state [of cfg s1 r now key obj bs] by (simp add: post_admit)
        with False noerr \<open>shouldStore cfg r uc cond obj\<close> ac show ?thesis
          by (simp add: h serveSuccess_def b ra bb post_admit)
      qed
    qed
  qed
qed

text \<open>
  C4 (amended). When the admission path is entered (\<open>shouldStore\<close>) and its buffered
  read of the origin body fails, the handler answers \<open>502 Bad Gateway\<close> with the plain
  error body, serves nothing of the origin object, and leaves the state as it was after
  the cache probe: no entry is admitted.
\<close>

theorem C4_read_error_is_502:
  assumes f: "fetchStage env s r now = Fetched s1 key uc entry cond (Inr obj)"
    and st: "shouldStore cfg r uc cond obj"
    and b: "oBody obj = Some b"
    and e: "fst (snd (ReadAllLimit b (MaxObjectSize cfg + 1)))"
  shows "objectHandler cfg env s r now = Some (reply s1 (http_Error ''Bad Gateway'' 502))"
proof -
  obtain bs rest where "ReadAllLimit b (MaxObjectSize cfg + 1) = (bs, True, rest)"
    using e by (cases "ReadAllLimit b (MaxObjectSize cfg + 1)") auto
  with st b show ?thesis
    by (simp add: objectHandler_Fetched_success [OF f] serveSuccess_def StatusText_def)
qed


lemma fetch_hello:
  "fetchStage (env_of ans_hello) state_empty (req_of ''GET'' ''/a.txt'') 1000 =
     Fetched state_empty ''a.txt'' True None cond_none
       (Inr (toObject (\<lambda>t. []) ans_hello 200))"
  by (simp add: fetchStage_def Let_def req_of_def TrimPrefix_def HasPrefix_def shouldUseCache_def
      Header_Get_def ToLower_def cacheKey_def Cache_Get_def lru_Get_def state_empty_def
      callOrigin_def composeConditional_def buildConditional_def env_of_def cond_none_def
      fetchFromOrigin_def GetObject_def)

lemma fetch_broken:
  "fetchStage (env_of ans_broken) state_empty (req_of ''GET'' ''/a.txt'') 1000 =
     Fetched state_empty ''a.txt'' True None cond_none
       (Inr (toObject (\<lambda>t. []) ans_broken 200))"
  by (simp add: fetchStage_def Let_def req_of_def TrimPrefix_def HasPrefix_def shouldUseCache_def
      Header_Get_def ToLower_def cacheKey_def Cache_Get_def lru_Get_def state_empty_def
      callOrigin_def composeConditional_def buildConditional_def env_of_def cond_none_def
      fetchFromOrigin_def GetObject_def)

text \<open>
  Witness for C8: the first scenario of the specification. \<open>GET /a.txt\<close> on an empty
  cache, the origin answers five bytes with \<open>max-age=60\<close>: the entry is admitted with
  a TTL of 60 s.
\<close>

theorem C8_admission_iff_witness:
  "fetchStage (env_of ans_hello) state_empty (req_of ''GET'' ''/a.txt'') 1000 =
     Fetched state_empty ''a.txt'' True None cond_none (Inr (toObject (\<lambda>t. []) ans_hello 200))
   \<and> admission_conditions cfg_std (req_of ''GET'' ''/a.txt'') cond_none
        (toObject (\<lambda>t. []) ans_hello 200)
   \<and> (\<exists>res. objectHandler cfg_std (env_of ans_hello) state_empty (req_of ''GET'' ''/a.txt'') 1000
              = Some res
            \<and> cached_keys (post res) = [''a.txt''] \<and> Body (heap (post res) 0) = ''hello''
            \<and> Status (heap (post res) 0) = 200 \<and> TTL (heap (post res) 0) = 60000000000)"
proof -
  let ?obj = "toObject (\<lambda>t. []) ans_hello 200"
  have ac: "admission_conditions cfg_std (req_of ''GET'' ''/a.txt'') cond_none ?obj"
    by code_simp
  from C8_admission_iff [OF fetch_hello, of cfg_std] ac
  obtain res where r: "objectHandler cfg_std (env_of ans_hello) state_empty
        (req_of ''GET'' ''/a.txt'') 1000 = Some res"
    and p: "post res = Cache_Set (snd (alloc state_empty
              (newEntry cfg_std 1000 ?obj (bufferedBody cfg_std ?obj)))) ''a.txt'' (nxt state_empty)"
    by auto
  have k: "cached_keys (post res) = [''a.txt'']" unfolding p by code_simp
  have b: "Body (heap (post res) 0) = ''hello''" unfolding p by code_simp
  have st: "Status (heap (post res) 0) = 200" unfolding p by code_simp
  have t: "TTL (heap (post res) 0) = 60000000000" unfolding p by code_simp
  from fetch_hello ac r k b st t show ?thesis by blast
qed

text \<open>
  C4 (counterexample). \<open>GET /a.txt\<close> on an empty cache; the origin declares five bytes
  and its stream breaks after two. The admission path is entered, the buffered read
  fails, and the client receives status 502 with the body \<open>Bad Gateway\<close>, not the origin
  response.
\<close>

theorem C4_read_error_counterexample:
  "shouldStore cfg_std (req_of ''GET'' ''/a.txt'') True cond_none (toObject (\<lambda>t. []) ans_broken 200)
   \<and> ReadAllLimit (gBody ans_broken) (MaxObjectSize cfg_std + 1)
       = (''he'', True, \<lparr> content = [], broken = True \<rparr>)
   \<and> map_option (\<lambda>res. (rStatus (resp res), rBody (resp res), cached_keys (post res)))
       (objectHandler cfg_std (env_of ans_broken) state_empty (req_of ''GET'' ''/a.txt'') 1000)
     = Some (502, ''Bad Gateway'' @ [CHR 0x0A], [])"
  by code_simp

text \<open>Witness for C4 (amended), at the input of the counterexample.\<close>

theorem C4_read_error_is_502_witness:
  "fetchStage (env_of ans_broken) state_empty (req_of ''GET'' ''/a.txt'') 1000 =
     Fetched state_empty ''a.txt'' True None cond_none (Inr (toObject (\<lambda>t. []) ans_broken 200))
   \<and> shouldStore cfg_std (req_of ''GET'' ''/a.txt'') True cond_none
        (toObject (\<lambda>t. []) ans_broken 200)
   \<and> oBody (toObject (\<lambda>t. []) ans_broken 200) = Some (gBody ans_broken)
   \<and> fst (snd (ReadAllLimit (gBody ans_broken) (MaxObjectSize cfg_std + 1)))
   \<and> objectHandler cfg_std (env_of ans_broken) state_empty (req_of ''GET'' ''/a.txt'') 1000
       = Some (reply state_empty (http_Error ''Bad Gateway'' 502))"
proof -
  have st: "shouldStore cfg_std (req_of ''GET'' ''/a.txt'') True cond_none
        (toObject (\<lambda>t. []) ans_broken 200)"
    by code_simp
  have b: "oBody (toObject (\<lambda>t. []) ans_broken 200) = Some (gBody ans_broken)"
    by (simp add: toObject_def Let_def)
  have e: "fst (snd (ReadAllLimit (gBody ans_broken) (MaxObjectSize cfg_std + 1)))"
    by code_simp
  from C4_read_error_is_502 [OF fetch_broken st b e] fetch_broken st b e
  show ?thesis by blast
qed



text \<open>
  The handler always returns: a GET object comes from \<open>GetObject\<close>, which sets the body.
  In the overflow branch the client is sent what is left of the stream after the
  \<open>MaxObjectSize + 1\<close> buffered bytes.
\<close>

lemma serveSuccess_Some:
  assumes "Method r = ''HEAD'' \<or> oBody obj \<noteq> None"
  shows "\<exists>res. serveSuccess cfg s r now key uc cond obj = Some res"
proof (cases "shouldStore cfg r uc cond obj")
  case False
  with passThrough_Some [OF assms, of s obj] show ?thesis
    by (auto simp: serveSuccess_def)
next
  case True
  then have "Method r = ''GET''" by (simp add: shouldStore_def)
  with assms obtain b where b: "oBody obj = Some b" by auto
  obtain bs e rest where ra: "ReadAllLimit b (MaxObjectSize cfg + 1) = (bs, e, rest)"
    by (cases "ReadAllLimit b (MaxObjectSize cfg + 1)") auto
  have "Method r = ''HEAD'' \<or> Some rest \<noteq> None" by simp
  from passThrough_Some [OF this, of s obj] True show ?thesis
    by (auto simp: serveSuccess_def b ra)
qed

lemma objectHandler_total: "\<exists>res. objectHandler cfg env s r now = Some res"
proof (cases "fetchStage env s r now")
  case (Early res)
  then show ?thesis by (simp add: objectHandler_def dispatch_def)
next
  case (Fetched s1 key uc entry cond out)
  show ?thesis
  proof (cases out)
    case (Inl err)
    with Fetched show ?thesis by (simp add: objectHandler_def dispatch_def)
  next
    case (Inr obj)
    have "Method r = ''HEAD'' \<or> oBody obj \<noteq> None"
    proof (cases "Method r = ''HEAD''")
      case True
      then show ?thesis by simp
    next
      case False
      from Fetched Inr fetchStage_Fetched [of env s r now s1 key uc entry cond out]
      have "fetchFromOrigin env key cond (Method r) = Inr obj" by simp
      from fetchFromOrigin_body [OF this False] show ?thesis by auto
    qed
    from serveSuccess_Some [OF this] Fetched Inr show ?thesis
      by (simp add: objectHandler_def dispatch_def)
  qed
qed

lemma serveSuccess_overflow:
  assumes st: "shouldStore cfg r uc cond obj" and b: "oBody obj = Some b"
    and m: "sint (MaxObjectSize cfg) < 2 ^ 63 - 1"
    and l: "nat (sint (MaxObjectSize cfg)) < length (content b)"
  shows "\<exists>res. serveSuccess cfg s r now key uc cond obj = Some res
           \<and> rStatus (resp res) = 200
           \<and> rBody (resp res) = drop (nat (sint (MaxObjectSize cfg)) + 1) (content b)
           \<and> post res = s"
proof -
  from st have pos: "0 < sint (MaxObjectSize cfg)" and get: "Method r = ''GET''"
    and ok: "StatusCode obj = 200"
    by (auto simp: shouldStore_def)
  have s1: "sint (MaxObjectSize cfg + 1) = sint (MaxObjectSize cfg) + 1"
    using sint_add_no_overflow [of "MaxObjectSize cfg" 1] pos m by simp
  have n: "nat (sint (MaxObjectSize cfg) + 1) = nat (sint (MaxObjectSize cfg)) + 1"
    using pos by simp
  have ra: "ReadAllLimit b (MaxObjectSize cfg + 1) =
       (take (nat (sint (MaxObjectSize cfg)) + 1) (content b), False,
        b\<lparr> content := drop (nat (sint (MaxObjectSize cfg)) + 1) (content b) \<rparr>)"
    using pos l by (simp add: ReadAllLimit_def s1 n)
  have len: "sint (MaxObjectSize cfg) <
        int (length (take (nat (sint (MaxObjectSize cfg)) + 1) (content b)))"
    using pos l by simp
  show ?thesis
    using st b len get ok
    by (simp add: serveSuccess_def ra passThrough_def Let_def reply_def del: length_take)
qed

text \<open>
  C1 (evaluation at the failing input). \<open>MaxObjectSize\<close> is 4; the origin answers
  \<open>GET /big.bin\<close> with status 200, a declared length of 3 and a stream of the eight
  bytes \<open>abcdefgh\<close>. The admission path buffers \<open>MaxObjectSize + 1 = 5\<close> bytes, gives
  admission up, and copies what is left of the stream: the client receives status 200,
  \<open>X-Cache: MISS\<close> and the three bytes \<open>fgh\<close>, not the eight bytes of the object.
  Nothing is admitted.
\<close>

theorem C1_overflow_drops_buffered_prefix:
  "StatusCode (toObject (\<lambda>t. []) ans_long 200) = 200
   \<and> content (gBody ans_long) = ''abcdefgh''
   \<and> shouldStore cfg_small (req_of ''GET'' ''/big.bin'') True cond_none
        (toObject (\<lambda>t. []) ans_long 200)
   \<and> fst (ReadAllLimit (gBody ans_long) (MaxObjectSize cfg_small + 1)) = ''abcde''
   \<and> sint (MaxObjectSize cfg_small) < int (length ''abcde'')
   \<and> map_option (\<lambda>res. (rStatus (resp res), Header_Get (rHeader (resp res)) ''X-Cache'',
                          rBody (resp res), cached_keys (post res)))
       (objectHandler cfg_small (env_of ans_long) state_empty (req_of ''GET'' ''/big.bin'') 1000)
     = Some (200, ''MISS'', ''fgh'', [])"
  by code_simp

section \<open>The revalidation task\<close>

text \<open>
  C5 (evaluation at the failing input). The cache holds \<open>a.txt\<close> with status 200. The
  revalidation task receives a success whose \<open>Content-Range\<close> is set, so the adapter
  gives it status 206; \<open>revalidate\<close> checks the length and the read only, and replaces
  the cached entry by one with status 206.
\<close>

theorem C5_revalidate_admits_partial_content:
  "cached_keys state_stale = [''a.txt'']
   \<and> list_all (\<lambda>(k, e). Status (heap state_stale e) = 200) (items (lru (cache state_stale)))
   \<and> StatusCode (toObject (\<lambda>t. []) ans_partial 200) = 206
   \<and> map_option (\<lambda>s. map (\<lambda>(k, e). (k, Status (heap s e), Body (heap s e)))
                        (items (lru (cache s))))
       (revalidate cfg_std (env_of ans_partial) state_stale ''a.txt'' 0 90000000000)
     = Some [(''a.txt'', 206, ''hell'')]"
  by code_simp

end
